theory Spec2Isabelle
  imports Complex_Main
begin

section \<open>Tensors\<close>

text \<open>
  The layers of \<^verbatim>\<open>torch_explain/nn/logic.py\<close> compute on \<^verbatim>\<open>torch.Tensor\<close> values.
  A tensor is its size (one extent per axis) and its entries in row-major order, as a
  contiguous tensor is stored. Entries are real numbers: rounding is not modelled, and the
  one place of this module where the library yields a value that is no number (the mean of
  an empty axis) is an outcome of its own, \<open>NaN_produced\<close>.
\<close>

record tensor =
  shape :: "nat list"
  data :: "real list"

text \<open>
  What a call may end with instead of a value: the Python exceptions the statements of the
  module can raise, and \<open>NaN_produced\<close> (see above; the code raises nothing there).
\<close>

datatype failure = TypeError | RuntimeError | IndexError | ZeroDivisionError | NaN_produced

type_synonym 'a result = "failure + 'a"

definition and_then :: "'a result \<Rightarrow> ('a \<Rightarrow> 'b result) \<Rightarrow> 'b result" where
  "and_then r f = (case r of Inl e \<Rightarrow> Inl e | Inr v \<Rightarrow> f v)"

definition ndim :: "tensor \<Rightarrow> nat" where
  "ndim t = length (shape t)"

definition numel :: "tensor \<Rightarrow> nat" where
  "numel t = prod_list (shape t)"

text \<open>All multi-indices of a size, in row-major order, and the position of one of them.\<close>

fun indices :: "nat list \<Rightarrow> nat list list" where
  "indices [] = [[]]"
| "indices (d # ds) = concat (map (\<lambda>i. map ((#) i) (indices ds)) [0..<d])"

fun offset :: "nat list \<Rightarrow> nat list \<Rightarrow> nat" where
  "offset (d # ds) (i # js) = i * prod_list ds + offset ds js"
| "offset _ _ = 0"

definition entry :: "tensor \<Rightarrow> nat list \<Rightarrow> real" where
  "entry t idx = data t ! offset (shape t) idx"

definition tabulate :: "nat list \<Rightarrow> (nat list \<Rightarrow> real) \<Rightarrow> tensor" where
  "tabulate sh f = \<lparr>shape = sh, data = map f (indices sh)\<rparr>"

definition valid_index :: "nat list \<Rightarrow> nat list \<Rightarrow> bool" where
  "valid_index sh idx = list_all2 (<) idx sh"

section \<open>Tensor operations of the library\<close>

text \<open>
  The operations of \<^verbatim>\<open>torch\<close> that the module calls, each for tensors of every number of
  axes, with the library's broadcasting and its errors.
\<close>

text \<open>An axis argument may be negative (counted from the last axis); out of range it raises.\<close>

definition wrap_dim :: "int \<Rightarrow> nat \<Rightarrow> nat result" where
  "wrap_dim d n =
     (let m = (if n = 0 then 1 else int n)
      in if - m \<le> d \<and> d < m then Inr (nat (if d < 0 then d + m else d)) else Inl IndexError)"

definition unsqueeze :: "int \<Rightarrow> tensor \<Rightarrow> tensor result" where
  "unsqueeze d t =
     and_then (wrap_dim d (ndim t + 1))
       (\<lambda>k. Inr \<lparr>shape = take k (shape t) @ 1 # drop k (shape t), data = data t\<rparr>)"



text \<open>
  Broadcasting: sizes are aligned at the last axis; two extents agree when they are equal
  or one of them is 1.
\<close>

definition bdim :: "nat \<Rightarrow> nat \<Rightarrow> nat result" where
  "bdim x y = (if x = 1 then Inr y else if y = 1 \<or> y = x then Inr x else Inl RuntimeError)"

fun broadcast_rev :: "nat list \<Rightarrow> nat list \<Rightarrow> nat list result" where
  "broadcast_rev (x # xs) (y # ys) =
     and_then (bdim x y) (\<lambda>d. and_then (broadcast_rev xs ys) (\<lambda>ds. Inr (d # ds)))"
| "broadcast_rev xs [] = Inr xs"
| "broadcast_rev [] ys = Inr ys"

definition broadcast_shapes :: "nat list \<Rightarrow> nat list \<Rightarrow> nat list result" where
  "broadcast_shapes a b = and_then (broadcast_rev (rev a) (rev b)) (\<lambda>r. Inr (rev r))"

text \<open>The index into an operand of size \<open>sh\<close> that an index of the broadcast result reads.\<close>

definition bidx :: "nat list \<Rightarrow> nat list \<Rightarrow> nat list" where
  "bidx sh idx = map2 (\<lambda>d j. if d = 1 then 0 else j) sh (drop (length idx - length sh) idx)"

definition binop :: "(real \<Rightarrow> real \<Rightarrow> real) \<Rightarrow> tensor \<Rightarrow> tensor \<Rightarrow> tensor result" where
  "binop f a b =
     and_then (broadcast_shapes (shape a) (shape b))
       (\<lambda>sh. Inr (tabulate sh (\<lambda>idx. f (entry a (bidx (shape a) idx)) (entry b (bidx (shape b) idx)))))"

definition add :: "tensor \<Rightarrow> tensor \<Rightarrow> tensor result" where
  "add a b = binop (+) a b"

definition multiply :: "tensor \<Rightarrow> tensor \<Rightarrow> tensor result" where
  "multiply a b = binop (*) a b"

definition divide :: "tensor \<Rightarrow> tensor \<Rightarrow> tensor result" where
  "divide a b = binop (/) a b"

text \<open>\<^verbatim>\<open>x + self.bias\<close>: a bias that is \<^verbatim>\<open>None\<close> is no operand of \<^verbatim>\<open>+\<close>.\<close>

definition add_bias :: "tensor \<Rightarrow> tensor option \<Rightarrow> tensor result" where
  "add_bias x b = (case b of None \<Rightarrow> Inl TypeError | Some b' \<Rightarrow> add x b')"

text \<open>
  \<^verbatim>\<open>a.matmul(b)\<close>, \<^verbatim>\<open>a @ b\<close>: the last two axes are multiplied as matrices, the axes before
  them are broadcast. An operand with one axis is a row (on the left) or a column (on the
  right) for the product, and that axis of extent 1 is dropped from the result.
\<close>

definition matmul :: "tensor \<Rightarrow> tensor \<Rightarrow> tensor result" where
  "matmul a b =
     (if ndim a = 0 \<or> ndim b = 0 then Inl RuntimeError
      else
        let sa = (if ndim a = 1 then 1 # shape a else shape a);
            sb = (if ndim b = 1 then shape b @ [1] else shape b);
            ba = butlast (butlast sa);
            bb = butlast (butlast sb);
            m = last (butlast sa);
            k = last sa;
            p = last sb
        in if k \<noteq> last (butlast sb) then Inl RuntimeError
           else and_then (broadcast_shapes ba bb)
             (\<lambda>bs. let nb = length bs;
                       r = tabulate (bs @ [m, p])
                             (\<lambda>idx. sum_list (map
                                (\<lambda>j. entry \<lparr>shape = sa, data = data a\<rparr> (bidx ba (take nb idx) @ [idx ! nb, j])
                                   * entry \<lparr>shape = sb, data = data b\<rparr> (bidx bb (take nb idx) @ [j, idx ! Suc nb]))
                                [0..<k]))
                   in Inr \<lparr>shape = bs @ (if ndim a = 1 then [] else [m]) @ (if ndim b = 1 then [] else [p]),
                          data = data r\<rparr>))"

text \<open>\<^verbatim>\<open>t.permute(*ds)\<close>: axis \<open>k\<close> of the result is axis \<open>ds ! k\<close> of \<open>t\<close>.\<close>

definition permute :: "nat list \<Rightarrow> tensor \<Rightarrow> tensor result" where
  "permute ds t =
     (if sort ds \<noteq> [0..<ndim t] then Inl RuntimeError
      else Inr (tabulate (map ((!) (shape t)) ds)
             (\<lambda>idx. entry t (map (\<lambda>a. idx ! length (takeWhile (\<lambda>d. d \<noteq> a) ds)) [0..<ndim t]))))"

text \<open>\<^verbatim>\<open>t.t()\<close>: the transpose of a matrix; a tensor of fewer axes is returned as it is.\<close>

definition tensor_t :: "tensor \<Rightarrow> tensor result" where
  "tensor_t t =
     (if ndim t < 2 then Inr t
      else if ndim t = 2 then Inr (tabulate (rev (shape t)) (\<lambda>idx. entry t (rev idx)))
      else Inl RuntimeError)"

text \<open>
  \<^verbatim>\<open>t.view(n, -1)\<close>: the same entries as \<open>n\<close> rows; the second extent is inferred, which
  fails when \<open>n\<close> is 0 or does not divide the number of entries.
\<close>

definition view_infer :: "nat \<Rightarrow> tensor \<Rightarrow> tensor result" where
  "view_infer n t =
     (if n = 0 \<or> numel t mod n \<noteq> 0 then Inl RuntimeError
      else Inr \<lparr>shape = [n, numel t div n], data = data t\<rparr>)"

text \<open>
  Reductions along axis \<open>k\<close>: \<open>lane t k idx\<close> lists the entries of \<open>t\<close> whose index is
  \<open>idx\<close> with axis \<open>k\<close> left out. A tensor with no axis is one lane of one entry.
\<close>

definition lane :: "tensor \<Rightarrow> nat \<Rightarrow> nat list \<Rightarrow> real list" where
  "lane t k idx =
     (if shape t = [] then [entry t []]
      else map (\<lambda>j. entry t (take k idx @ j # drop k idx)) [0..<shape t ! k])"

definition reduced_shape :: "tensor \<Rightarrow> nat \<Rightarrow> nat list" where
  "reduced_shape t k = take k (shape t) @ drop (Suc k) (shape t)"

text \<open>\<^verbatim>\<open>t.norm(dim=d)\<close>: the Euclidean norm of every lane.\<close>

definition norm_dim :: "int \<Rightarrow> tensor \<Rightarrow> tensor result" where
  "norm_dim d t =
     and_then (wrap_dim d (ndim t))
       (\<lambda>k. Inr (tabulate (reduced_shape t k)
                   (\<lambda>idx. sqrt (sum_list (map (\<lambda>v. v\<^sup>2) (lane t k idx))))))"

text \<open>\<^verbatim>\<open>t.max(dim=d)[0]\<close>: the maximum of every lane; an axis of extent 0 raises.\<close>

definition max_dim :: "int \<Rightarrow> tensor \<Rightarrow> tensor result" where
  "max_dim d t =
     and_then (wrap_dim d (ndim t))
       (\<lambda>k. if shape t \<noteq> [] \<and> shape t ! k = 0 then Inl IndexError
             else Inr (tabulate (reduced_shape t k) (\<lambda>idx. Max (set (lane t k idx)))))"


text \<open>\<^verbatim>\<open>torch.softmax(t, dim=d)\<close>: every lane is exponentiated and divided by its sum.\<close>

definition softmax :: "int \<Rightarrow> tensor \<Rightarrow> tensor result" where
  "softmax d t =
     and_then (wrap_dim d (ndim t))
       (\<lambda>k. Inr (tabulate (shape t)
                   (\<lambda>idx. exp (entry t idx)
                      / sum_list (map exp (lane t k (take k idx @ drop (Suc k) idx))))))"



section \<open>The Conceptizator\<close>

text \<open>
  Modelled from the spec: the class \<^verbatim>\<open>Conceptizator\<close> of \<^verbatim>\<open>torch_explain/nn/concepts.py\<close>,
  which \<^verbatim>\<open>logic.py\<close> imports. It holds the name of its activation mode and the snapshot
  \<^verbatim>\<open>concepts\<close>. Called on a tensor, it stores that tensor as \<^verbatim>\<open>concepts\<close>, overwriting
  the previous one, and returns the tensor with the nonlinearity of its mode applied to
  every entry. The nonlinearity of each mode is the parameter \<open>nl\<close>.
\<close>

record conceptizator =
  activation_name :: string
  concepts :: "tensor option"

definition Conceptizator_init :: "string \<Rightarrow> conceptizator" where
  "Conceptizator_init activation = \<lparr>activation_name = activation, concepts = None\<rparr>"


section \<open>ConceptAwareness\<close>

text \<open>
  The attributes of a \<^verbatim>\<open>ConceptAwareness\<close> instance. \<^verbatim>\<open>gamma\<close>, \<^verbatim>\<open>alpha\<close> and \<^verbatim>\<open>beta\<close>
  are \<open>None\<close> until a forward pass in shrink mode assigns them.
\<close>

record ConceptAwareness =
  ca_in_features :: nat
  ca_out_features :: nat
  ca_n_classes :: nat
  ca_n_heads :: "int option"
  ca_top :: bool
  ca_awareness :: bool
  ca_conceptizator :: conceptizator
  ca_shrink :: bool
  ca_gamma :: "tensor option"
  ca_alpha :: "tensor option"
  ca_beta :: "tensor option"
  ca_weight :: tensor
  ca_bias :: "tensor option"

text \<open>
  \<^verbatim>\<open>reset_parameters\<close>. The values that \<^verbatim>\<open>kaiming_uniform_\<close> and \<^verbatim>\<open>uniform_\<close> draw are the
  parameters \<open>w0\<close> and \<open>b0\<close> (one value for each index). \<^verbatim>\<open>1 / math.sqrt(fan_in)\<close> divides
  by zero when the fan-in, the product of all extents of the weight but the first, is 0.
  \<^verbatim>\<open>kaiming_uniform_\<close> leaves a tensor with no entry as it is.
\<close>

definition fan_in :: "nat list \<Rightarrow> nat" where
  "fan_in sh = prod_list (drop 1 sh)"

definition reset_parameters ::
  "(nat list \<Rightarrow> real) \<Rightarrow> (nat list \<Rightarrow> real) \<Rightarrow> nat list \<Rightarrow> nat list option
     \<Rightarrow> (tensor \<times> tensor option) result" where
  "reset_parameters w0 b0 wsh bsh =
     (let weight = tabulate wsh w0
      in case bsh of
           None \<Rightarrow> Inr (weight, None)
         | Some sh \<Rightarrow>
             if fan_in wsh = 0 then Inl ZeroDivisionError
             else Inr (weight, Some (tabulate sh b0)))"

text \<open>
  \<^verbatim>\<open>ConceptAwareness.__init__\<close>. The constructor of \<^verbatim>\<open>Linear\<close> runs first, with a weight
  of size \<open>(out_features, in_features)\<close>, and calls \<^verbatim>\<open>reset_parameters\<close> on it; both
  branches on \<^verbatim>\<open>n_heads\<close> then replace weight and bias by per-class tensors.
\<close>

definition ConceptAwareness_init ::
  "nat \<Rightarrow> nat \<Rightarrow> nat \<Rightarrow> bool \<Rightarrow> int option \<Rightarrow> bool \<Rightarrow> bool
     \<Rightarrow> (nat list \<Rightarrow> real) \<Rightarrow> (nat list \<Rightarrow> real) \<Rightarrow> ConceptAwareness result" where
  "ConceptAwareness_init in_features out_features n_classes awareness n_heads is_top bias w0 b0 =
     and_then (reset_parameters w0 b0 [out_features, in_features]
                 (if bias then Some [out_features] else None))
       (\<lambda>_. and_then (reset_parameters w0 b0 [n_classes, out_features, in_features]
                        (if bias then Some [n_classes, 1, out_features] else None))
          (\<lambda>(w, b). Inr
             \<lparr>ca_in_features = in_features,
              ca_out_features = out_features,
              ca_n_classes = n_classes,
              ca_n_heads = n_heads,
              ca_top = is_top,
              ca_awareness = awareness,
              ca_conceptizator = Conceptizator_init ''identity_bool'',
              ca_shrink = (n_heads \<noteq> None),
              ca_gamma = None,
              ca_alpha = None,
              ca_beta = None,
              ca_weight = w,
              ca_bias = b\<rparr>))"

text \<open>Lines 50-51 of \<^verbatim>\<open>forward\<close>: an input with two axes gets a leading axis of extent 1.\<close>

definition promote :: "tensor \<Rightarrow> tensor result" where
  "promote input = (if length (shape input) = 2 then unsqueeze 0 input else Inr input)"

text \<open>
  \<^verbatim>\<open>self.alpha / self.alpha.max(dim=1)[0].unsqueeze(1)\<close>: every row of \<open>alpha\<close> divided by
  its maximum.
\<close>

definition rescale_alpha :: "tensor \<Rightarrow> tensor result" where
  "rescale_alpha a = and_then (and_then (max_dim 1 a) (unsqueeze 1)) (divide a)"

text \<open>
  Lines 55-58, the shrink branch up to the gated input. Each assignment to an attribute
  is a new state; a statement that raises leaves the state of the assignments before it.
\<close>

definition shrink_gate :: "ConceptAwareness \<Rightarrow> tensor \<Rightarrow> ConceptAwareness \<times> tensor result" where
  "shrink_gate self input =
     (case norm_dim 1 (ca_weight self) of
        Inl e \<Rightarrow> (self, Inl e)
      | Inr g \<Rightarrow>
          let self1 = self\<lparr>ca_gamma := Some g\<rparr>
          in case softmax 1 g of
               Inl e \<Rightarrow> (self1, Inl e)
             | Inr a \<Rightarrow>
                 let self2 = self1\<lparr>ca_alpha := Some a\<rparr>
                 in case rescale_alpha a of
                      Inl e \<Rightarrow> (self2, Inl e)
                    | Inr b \<Rightarrow>
                        (self2\<lparr>ca_beta := Some b\<rparr>, and_then (unsqueeze 1 b) (multiply input)))"

text \<open>Lines 59 and 61: \<^verbatim>\<open>x.matmul(self.weight.permute(0, 2, 1)) + self.bias\<close>.\<close>

definition project :: "ConceptAwareness \<Rightarrow> tensor \<Rightarrow> tensor result" where
  "project self x =
     and_then (and_then (permute [0, 2, 1] (ca_weight self)) (matmul x))
       (\<lambda>m. add_bias m (ca_bias self))"

text \<open>
  \<^verbatim>\<open>ConceptAwareness.forward\<close>: the instance after the call, and the tensor returned or
  the exception raised.
\<close>

definition ConceptAwareness_forward ::
  "ConceptAwareness \<Rightarrow> tensor \<Rightarrow> ConceptAwareness \<times> tensor result" where
  "ConceptAwareness_forward self input0 =
     (case promote input0 of
        Inl e \<Rightarrow> (self, Inl e)
      | Inr input \<Rightarrow>
          let self1 = self\<lparr>ca_conceptizator := (ca_conceptizator self)\<lparr>concepts := Some input\<rparr>\<rparr>;
              (self2, gated) = (if ca_shrink self1 then shrink_gate self1 input else (self1, Inr input));
              x = and_then gated (project self2)
          in if ca_top self2
             then (case and_then x (\<lambda>x'. and_then (view_infer (ca_n_classes self2) x') tensor_t) of
                     Inl e \<Rightarrow> (self2, Inl e)
                   | Inr x' \<Rightarrow>
                       (self2\<lparr>ca_conceptizator := (ca_conceptizator self2)\<lparr>concepts := Some x'\<rparr>\<rparr>,
                        Inr x'))
             else (self2, x))"

section \<open>Logic\<close>



section \<open>Attention\<close>






section \<open>Sequential\<close>







section \<open>The shrink gate in the words of the specification\<close>

text \<open>
  The specification describes \<open>gamma\<close> as the per-class, per-output-feature norms of the
  weight vectors: for a weight of shape \<open>(n_classes, out, in)\<close>, the norm over the input
  axis of each output feature. This definition follows those words; it is compared with
  what \<^verbatim>\<open>forward\<close> assigns to \<^verbatim>\<open>self.gamma\<close>.
\<close>

definition gamma_per_output_feature :: "tensor \<Rightarrow> tensor result" where
  "gamma_per_output_feature w = norm_dim 2 w"

section \<open>Example instances\<close>

text \<open>
  A layer with two classes, three input features and two output features, and a batch of
  two samples; the theorems below are applied to them.
\<close>

definition example_layer :: ConceptAwareness where
  "example_layer =
     \<lparr>ca_in_features = 3, ca_out_features = 2, ca_n_classes = 2, ca_n_heads = None,
      ca_top = False, ca_awareness = False,
      ca_conceptizator = Conceptizator_init ''identity_bool'',
      ca_shrink = False, ca_gamma = None, ca_alpha = None, ca_beta = None,
      ca_weight = \<lparr>shape = [2, 2, 3], data = [1, 2, 3, 2, 3, 4, 2, 3, 4, 3, 4, 5]\<rparr>,
      ca_bias = Some \<lparr>shape = [2, 1, 2], data = [0, 1 / 2, 1 / 2, 1]\<rparr>\<rparr>"

definition example_input :: tensor where
  "example_input = \<lparr>shape = [2, 3], data = [1, 2, 3, 4, 5, 6]\<rparr>"

text \<open>A batch whose samples have four features, one more than the layer takes.\<close>

definition example_bad_input :: tensor where
  "example_bad_input = \<lparr>shape = [2, 4], data = [1, 2, 3, 4, 5, 6, 7, 8]\<rparr>"





section \<open>Facts about indexing\<close>

lemma length_indices: "length (indices sh) = prod_list sh"
proof (induction sh)
  case Nil
  show ?case by simp
next
  case (Cons d ds)
  have "length (concat (map (\<lambda>i. map ((#) i) (indices ds)) [0..<n])) = n * prod_list ds" for n
    by (induction n) (simp_all add: Cons.IH)
  then show ?case by simp
qed

lemma nth_concat_blocks:
  assumes "i < n" and "j < length (g i)" and "\<And>k. k < n \<Longrightarrow> length (g k) = m"
  shows "concat (map g [0..<n]) ! (i * m + j) = g i ! j"
  using assms
proof (induction n)
  case 0
  then show ?case by simp
next
  case (Suc n)
  have len: "length (concat (map g [0..<n])) = n * m"
    using Suc.prems(3) by (induction n) simp_all
  show ?case
  proof (cases "i < n")
    case True
    then have "i * m + j < n * m"
    proof -
      have "j < m" using Suc.prems by auto
      moreover have "Suc i \<le> n" using True by simp
      then have "Suc i * m \<le> n * m" by (rule mult_le_mono1)
      ultimately show ?thesis by simp
    qed
    then show ?thesis
      using Suc True len by (simp add: nth_append)
  next
    case False
    then have "i = n" using Suc.prems(1) by simp
    then show ?thesis using len by (simp add: nth_append)
  qed
qed

lemma offset_indices:
  "valid_index sh idx \<Longrightarrow> offset sh idx < prod_list sh \<and> indices sh ! offset sh idx = idx"
proof (induction sh arbitrary: idx)
  case Nil
  then show ?case by (simp add: valid_index_def)
next
  case (Cons d ds)
  then obtain i js where idx: "idx = i # js" and i: "i < d" and js: "valid_index ds js"
    by (auto simp: valid_index_def list_all2_Cons2)
  from Cons.IH [OF js] have o: "offset ds js < prod_list ds" and n: "indices ds ! offset ds js = js"
    by simp_all
  have "Suc i \<le> d" using i by simp
  then have "Suc i * prod_list ds \<le> d * prod_list ds" by (rule mult_le_mono1)
  then have lt: "i * prod_list ds + offset ds js < d * prod_list ds" using o by simp
  have "concat (map (\<lambda>i. map ((#) i) (indices ds)) [0..<d]) ! (i * prod_list ds + offset ds js)
        = map ((#) i) (indices ds) ! offset ds js"
    by (rule nth_concat_blocks) (use i o in \<open>simp_all add: length_indices\<close>)
  then show ?case using lt o n by (simp add: idx length_indices)
qed

lemma shape_tabulate [simp]: "shape (tabulate sh f) = sh"
  by (simp add: tabulate_def)

lemma entry_tabulate: "valid_index sh idx \<Longrightarrow> entry (tabulate sh f) idx = f idx"
  using offset_indices [of sh idx] by (simp add: entry_def tabulate_def length_indices)


section \<open>Facts about results and states\<close>

lemma and_then_Inl [simp]: "and_then (Inl e) f = Inl e"
  by (simp add: and_then_def)

lemma and_then_Inr [simp]: "and_then (Inr v) f = f v"
  by (simp add: and_then_def)

lemma and_then_eq_Inr: "and_then r f = Inr v \<longleftrightarrow> (\<exists>u. r = Inr u \<and> f u = Inr v)"
  by (cases r) simp_all

lemma wrap_dim_0 [simp]: "wrap_dim 0 n = Inr 0"
  by (simp add: wrap_dim_def Let_def)

lemma promote_total: "\<exists>p. promote x = Inr p"
  by (simp add: promote_def unsqueeze_def)

text \<open>The shrink branch assigns \<open>gamma\<close>, \<open>alpha\<close> and \<open>beta\<close> and nothing else.\<close>

lemma shrink_gate_frame:
  "ca_weight (fst (shrink_gate s x)) = ca_weight s"
  "ca_bias (fst (shrink_gate s x)) = ca_bias s"
  "ca_top (fst (shrink_gate s x)) = ca_top s"
  "ca_n_classes (fst (shrink_gate s x)) = ca_n_classes s"
  "ca_conceptizator (fst (shrink_gate s x)) = ca_conceptizator s"
  "ca_in_features (fst (shrink_gate s x)) = ca_in_features s"
  "ca_out_features (fst (shrink_gate s x)) = ca_out_features s"
  "ca_shrink (fst (shrink_gate s x)) = ca_shrink s"
  "ca_awareness (fst (shrink_gate s x)) = ca_awareness s"
  "ca_n_heads (fst (shrink_gate s x)) = ca_n_heads s"
  by (simp_all add: shrink_gate_def Let_def split: sum.split)

lemma project_no_bias: "ca_bias s = None \<Longrightarrow> \<exists>e. project s x = Inl e"
  by (cases "and_then (permute [0, 2, 1] (ca_weight s)) (matmul x)")
     (simp_all add: project_def add_bias_def)

text \<open>The forward pass with its intermediate states named.\<close>

lemma forward_unfold:
  assumes "promote x = Inr p"
  shows "ConceptAwareness_forward (l :: ConceptAwareness) x =
     (let s1 = l\<lparr>ca_conceptizator := (ca_conceptizator l)\<lparr>concepts := Some p\<rparr>\<rparr>;
          s2 = fst (if ca_shrink l then shrink_gate s1 p else (s1, Inr p));
          g = snd (if ca_shrink l then shrink_gate s1 p else (s1, Inr p));
          r = and_then g (project s2)
      in if ca_top l
         then (case and_then r (\<lambda>x'. and_then (view_infer (ca_n_classes l) x') tensor_t) of
                 Inl e \<Rightarrow> (s2, Inl e)
               | Inr x' \<Rightarrow> (s2\<lparr>ca_conceptizator := (ca_conceptizator s2)\<lparr>concepts := Some x'\<rparr>\<rparr>, Inr x'))
         else (s2, r))"
  using assms
  by (simp add: ConceptAwareness_forward_def Let_def split_beta shrink_gate_frame)

lemma forward_unfold_state:
  assumes "promote x = Inr p"
    and "s1 = l\<lparr>ca_conceptizator := (ca_conceptizator l)\<lparr>concepts := Some p\<rparr>\<rparr>"
  shows "ConceptAwareness_forward (l :: ConceptAwareness) x =
     (let s2 = fst (if ca_shrink s1 then shrink_gate s1 p else (s1, Inr p));
          g = snd (if ca_shrink s1 then shrink_gate s1 p else (s1, Inr p));
          r = and_then g (project s2)
      in if ca_top s1
         then (case and_then r (\<lambda>x'. and_then (view_infer (ca_n_classes s1) x') tensor_t) of
                 Inl e \<Rightarrow> (s2, Inl e)
               | Inr x' \<Rightarrow> (s2\<lparr>ca_conceptizator := (ca_conceptizator s2)\<lparr>concepts := Some x'\<rparr>\<rparr>, Inr x'))
         else (s2, r))"
  using assms(1) unfolding assms(2)
  by (simp add: ConceptAwareness_forward_def Let_def split_beta shrink_gate_frame)

text \<open>The definitions that evaluate a forward pass on given tensors.\<close>

lemmas eval_defs = ConceptAwareness_forward_def promote_def unsqueeze_def wrap_dim_def ndim_def
    project_def permute_def matmul_def add_bias_def add_def binop_def broadcast_shapes_def bdim_def
    bidx_def tabulate_def entry_def upt_rec Conceptizator_init_def view_infer_def tensor_t_def
    numel_def

section \<open>ConceptAwareness without a bias\<close>

text \<open>
  C9. A \<^verbatim>\<open>ConceptAwareness\<close> layer constructed with \<^verbatim>\<open>bias=False\<close> is accepted by the
  constructor, with its bias registered as absent; every forward call on a layer whose
  bias is absent raises, whatever the input, and leaves the bias absent: both paths add
  the bias to the product.
\<close>

theorem bias_None_forward_raises:
  "(\<exists>l. ConceptAwareness_init i out n aw nh tp False w0 b0 = Inr l \<and> ca_bias l = None)
   \<and> (\<forall>(l :: ConceptAwareness) x. ca_bias l = None \<longrightarrow>
         (\<exists>e. snd (ConceptAwareness_forward l x) = Inl e)
         \<and> ca_bias (fst (ConceptAwareness_forward l x)) = None)"
proof (intro conjI allI impI)
  show "\<exists>l. ConceptAwareness_init i out n aw nh tp False w0 b0 = Inr l \<and> ca_bias l = None"
    by (simp add: ConceptAwareness_init_def reset_parameters_def)
next
  fix l :: ConceptAwareness and x
  assume nb: "ca_bias l = None"
  obtain p where p: "promote x = Inr p" using promote_total by blast
  define s1 where "s1 = l\<lparr>ca_conceptizator := (ca_conceptizator l)\<lparr>concepts := Some p\<rparr>\<rparr>"
  define s2 where "s2 = fst (if ca_shrink l then shrink_gate s1 p else (s1, Inr p))"
  define g where "g = snd (if ca_shrink l then shrink_gate s1 p else (s1, Inr p))"
  have b2: "ca_bias s2 = None"
    using nb by (simp add: s2_def s1_def shrink_gate_frame)
  have "\<exists>e. and_then g (project s2) = Inl e"
    using project_no_bias [OF b2] by (cases g) simp_all
  then obtain e where e: "and_then g (project s2) = Inl e" ..
  show "\<exists>e. snd (ConceptAwareness_forward l x) = Inl e"
    using e by (simp add: forward_unfold [OF p] Let_def s1_def [symmetric] s2_def [symmetric] g_def [symmetric])
  show "ca_bias (fst (ConceptAwareness_forward l x)) = None"
    using e b2 by (simp add: forward_unfold [OF p] Let_def s1_def [symmetric] s2_def [symmetric] g_def [symmetric])
qed

theorem bias_None_forward_raises_witness:
  "ca_bias (example_layer\<lparr>ca_bias := None\<rparr>) = None
   \<and> (\<exists>e. snd (ConceptAwareness_forward (example_layer\<lparr>ca_bias := None\<rparr>) example_input) = Inl e)"
  using bias_None_forward_raises [THEN conjunct2, rule_format, of "example_layer\<lparr>ca_bias := None\<rparr>" example_input]
  by simp

section \<open>The concepts snapshot\<close>

text \<open>
  C6, as the claim states it: if \<^verbatim>\<open>ConceptAwareness.forward\<close> raises, the concepts snapshot
  is the one before the call. On a batch with four features the product of the example
  layer raises, and the snapshot, \<open>None\<close> before the call, is set after it.
\<close>

theorem forward_not_atomic_counterexample:
  "snd (ConceptAwareness_forward example_layer example_bad_input) = Inl RuntimeError
   \<and> concepts (ca_conceptizator (fst (ConceptAwareness_forward example_layer example_bad_input)))
       \<noteq> concepts (ca_conceptizator example_layer)"
  by (simp add: example_layer_def example_bad_input_def eval_defs)

text \<open>
  C6, amended: a forward pass ends with a tensor or with an exception, and it is not
  atomic. When \<^verbatim>\<open>ConceptAwareness.forward\<close> raises, the concepts snapshot has already
  been overwritten with the input, promoted to three axes; weight and bias are as before
  the call.
\<close>

theorem forward_raise_snapshot:
  assumes "promote x = Inr p" and "ConceptAwareness_forward l x = (l', Inl e)"
  shows "concepts (ca_conceptizator l') = Some p \<and> ca_weight l' = ca_weight l \<and> ca_bias l' = ca_bias l"
  using assms(2)
  by (auto simp: forward_unfold [OF assms(1)] Let_def shrink_gate_frame split: if_splits sum.splits)

theorem forward_raise_snapshot_witness:
  "concepts (ca_conceptizator (fst (ConceptAwareness_forward example_layer example_bad_input)))
     = Some \<lparr>shape = [1, 2, 4], data = [1, 2, 3, 4, 5, 6, 7, 8]\<rparr>"
proof -
  have p: "promote example_bad_input = Inr \<lparr>shape = [1, 2, 4], data = [1, 2, 3, 4, 5, 6, 7, 8]\<rparr>"
    by (simp add: example_bad_input_def promote_def unsqueeze_def)
  have "snd (ConceptAwareness_forward example_layer example_bad_input) = Inl RuntimeError"
    by (simp add: example_layer_def example_bad_input_def eval_defs)
  then have f: "ConceptAwareness_forward example_layer example_bad_input
      = (fst (ConceptAwareness_forward example_layer example_bad_input), Inl RuntimeError)"
    by (simp add: prod_eq_iff)
  from forward_raise_snapshot [OF p f] show ?thesis by simp
qed



section \<open>The flags \<^verbatim>\<open>awareness\<close> and \<^verbatim>\<open>n_heads\<close>\<close>

lemma shrink_gate_awareness:
  "shrink_gate (s\<lparr>ca_awareness := a\<rparr>) x = (case shrink_gate s x of (s', r) \<Rightarrow> (s'\<lparr>ca_awareness := a\<rparr>, r))"
  by (simp add: shrink_gate_def Let_def split: sum.split)

lemma shrink_gate_n_heads:
  "shrink_gate (s\<lparr>ca_n_heads := h\<rparr>) x = (case shrink_gate s x of (s', r) \<Rightarrow> (s'\<lparr>ca_n_heads := h\<rparr>, r))"
  by (simp add: shrink_gate_def Let_def split: sum.split)

lemma project_awareness: "project (s\<lparr>ca_awareness := a\<rparr>) = project s"
  by (rule ext) (simp add: project_def)

lemma project_n_heads: "project (s\<lparr>ca_n_heads := a\<rparr>) = project s"
  by (rule ext) (simp add: project_def)


lemma forward_awareness:
  "ConceptAwareness_forward (l\<lparr>ca_awareness := a\<rparr>) x =
     (case ConceptAwareness_forward l x of (l', r) \<Rightarrow> (l'\<lparr>ca_awareness := a\<rparr>, r))"
proof -
  obtain p where p: "promote x = Inr p" using promote_total by blast
  define s1 where "s1 = l\<lparr>ca_conceptizator := (ca_conceptizator l)\<lparr>concepts := Some p\<rparr>\<rparr>"
  have e: "s1\<lparr>ca_awareness := a\<rparr> =
      (l\<lparr>ca_awareness := a\<rparr>)\<lparr>ca_conceptizator := (ca_conceptizator (l\<lparr>ca_awareness := a\<rparr>))\<lparr>concepts := Some p\<rparr>\<rparr>"
    by (simp add: s1_def)
  show ?thesis
    unfolding forward_unfold_state [OF p e] forward_unfold_state [OF p s1_def]
    by (simp add: Let_def shrink_gate_awareness project_awareness split_beta split: sum.split)
qed

lemma forward_n_heads:
  "ConceptAwareness_forward (l\<lparr>ca_n_heads := h\<rparr>) x =
     (case ConceptAwareness_forward l x of (l', r) \<Rightarrow> (l'\<lparr>ca_n_heads := h\<rparr>, r))"
proof -
  obtain p where p: "promote x = Inr p" using promote_total by blast
  define s1 where "s1 = l\<lparr>ca_conceptizator := (ca_conceptizator l)\<lparr>concepts := Some p\<rparr>\<rparr>"
  have e: "s1\<lparr>ca_n_heads := h\<rparr> =
      (l\<lparr>ca_n_heads := h\<rparr>)\<lparr>ca_conceptizator := (ca_conceptizator (l\<lparr>ca_n_heads := h\<rparr>))\<lparr>concepts := Some p\<rparr>\<rparr>"
    by (simp add: s1_def)
  show ?thesis
    unfolding forward_unfold_state [OF p e] forward_unfold_state [OF p s1_def]
    by (simp add: Let_def shrink_gate_n_heads project_n_heads split_beta split: sum.split)
qed

text \<open>
  C7. The flag \<^verbatim>\<open>awareness\<close> has no effect on \<^verbatim>\<open>forward\<close>: two instances that differ in
  it alone return the same result on the same input and end in states that differ in it
  alone. Likewise the value of \<^verbatim>\<open>n_heads\<close>: \<^verbatim>\<open>forward\<close> never reads it, and the
  constructor builds the same layer for any two values that are not \<^verbatim>\<open>None\<close>, up to the
  stored value.
\<close>

theorem awareness_and_n_heads_unused:
  "ConceptAwareness_forward (l\<lparr>ca_awareness := a\<rparr>) x =
     (case ConceptAwareness_forward l x of (l', r) \<Rightarrow> (l'\<lparr>ca_awareness := a\<rparr>, r))
   \<and> ConceptAwareness_forward (l\<lparr>ca_n_heads := h\<rparr>) x =
     (case ConceptAwareness_forward l x of (l', r) \<Rightarrow> (l'\<lparr>ca_n_heads := h\<rparr>, r))
   \<and> ConceptAwareness_init i out n a2 nh tp b w0 b0 =
     map_sum id (\<lambda>l. l\<lparr>ca_awareness := a2\<rparr>) (ConceptAwareness_init i out n a1 nh tp b w0 b0)
   \<and> ConceptAwareness_init i out n aw (Some h2) tp b w0 b0 =
     map_sum id (\<lambda>l. l\<lparr>ca_n_heads := Some h2\<rparr>) (ConceptAwareness_init i out n aw (Some h1) tp b w0 b0)"
proof (intro conjI)
  show "ConceptAwareness_init i out n a2 nh tp b w0 b0 =
     map_sum id (\<lambda>l. l\<lparr>ca_awareness := a2\<rparr>) (ConceptAwareness_init i out n a1 nh tp b w0 b0)"
    by (simp add: ConceptAwareness_init_def reset_parameters_def and_then_def Let_def split: sum.split)
  show "ConceptAwareness_init i out n aw (Some h2) tp b w0 b0 =
     map_sum id (\<lambda>l. l\<lparr>ca_n_heads := Some h2\<rparr>) (ConceptAwareness_init i out n aw (Some h1) tp b w0 b0)"
    by (simp add: ConceptAwareness_init_def reset_parameters_def and_then_def Let_def split: sum.split)
qed (rule forward_awareness forward_n_heads)+

theorem awareness_and_n_heads_unused_witness:
  "snd (ConceptAwareness_forward (example_layer\<lparr>ca_awareness := True\<rparr>) example_input)
     = snd (ConceptAwareness_forward example_layer example_input)
   \<and> snd (ConceptAwareness_forward (example_layer\<lparr>ca_n_heads := Some 7\<rparr>) example_input)
     = snd (ConceptAwareness_forward example_layer example_input)"
  using awareness_and_n_heads_unused
    [where l = example_layer and a = True and x = example_input and h = "Some 7"]
  by (simp add: split_beta)

section \<open>Sequential without training\<close>







section \<open>Shapes\<close>

lemma bdim_simps [simp]: "bdim x x = Inr x" "bdim 1 y = Inr y" "bdim x 1 = Inr x"
  "bdim (Suc 0) y = Inr y" "bdim x (Suc 0) = Inr x"
  by (auto simp: bdim_def)

lemma wrap_dim_nat: "k < n \<Longrightarrow> wrap_dim (int k) n = Inr k"
  by (simp add: wrap_dim_def Let_def)

lemma wrap_dim_neg: "0 < k \<Longrightarrow> k \<le> n \<Longrightarrow> wrap_dim (- int k) n = Inr (n - k)"
  by (auto simp: wrap_dim_def Let_def nat_diff_distrib')

lemma wrap_dim_1 [simp]: "1 < n \<Longrightarrow> wrap_dim 1 n = Inr 1"
  using wrap_dim_nat [of 1 n] by simp

lemma permute_021_shape:
  "shape t = [a, b, c] \<Longrightarrow> \<exists>r. permute [0, 2, 1] t = Inr r \<and> shape r = [a, c, b]"
  by (simp add: permute_def ndim_def upt_rec)

lemma matmul_shape3:
  assumes "shape a = [k, m, i]" and "shape b = [n, i, p]" and "k = 1 \<or> k = n"
  shows "\<exists>r. matmul a b = Inr r \<and> shape r = [n, m, p]"
  using assms by (auto simp: matmul_def ndim_def Let_def broadcast_shapes_def)

lemma add_shape3:
  assumes "shape a = [n, m, p]" and "shape b = [n, 1, p]"
  shows "\<exists>r. add a b = Inr r \<and> shape r = [n, m, p]"
  using assms by (simp add: add_def binop_def broadcast_shapes_def)

lemma project_shape:
  assumes "shape (ca_weight s) = [n, out, i]" and "ca_bias s = Some b" and "shape b = [n, 1, out]"
    and "shape x = [k, m, i]" and "k = 1 \<or> k = n"
  shows "\<exists>r. project s x = Inr r \<and> shape r = [n, m, out]"
proof -
  obtain w where w: "permute [0, 2, 1] (ca_weight s) = Inr w" "shape w = [n, i, out]"
    using permute_021_shape [OF assms(1)] by blast
  obtain q where q: "matmul x w = Inr q" "shape q = [n, m, out]"
    using matmul_shape3 [OF assms(4) w(2) assms(5)] by blast
  obtain r where r: "add q b = Inr r" "shape r = [n, m, out]"
    using add_shape3 [OF q(2) assms(3)] by blast
  show ?thesis
    by (simp add: project_def w q r add_bias_def assms(2) del: One_nat_def)
qed

lemma view_t_shape:
  assumes "shape x = [n, m, out]" and "0 < n"
  shows "\<exists>r. and_then (view_infer n x) tensor_t = Inr r \<and> shape r = [m * out, n]"
  using assms by (simp add: view_infer_def numel_def tensor_t_def ndim_def)

lemma shrink_gate_shape:
  assumes "shape (ca_weight s) = [n, out, i]" and "0 < i"
    and "shape x = [k, m, i]" and "k = 1 \<or> k = n"
  shows "\<exists>r. snd (shrink_gate s x) = Inr r \<and> shape r = [n, m, i]"
  using assms
  by (auto simp: shrink_gate_def norm_dim_def ndim_def reduced_shape_def softmax_def rescale_alpha_def
      max_dim_def unsqueeze_def wrap_dim_nat divide_def binop_def broadcast_shapes_def multiply_def Let_def)

lemma promote_shape:
  assumes "shape x = [m, i] \<or> shape x = [n, m, i]"
  shows "\<exists>p k. promote x = Inr p \<and> shape p = [k, m, i] \<and> (k = 1 \<or> k = n)"
  using assms by (auto simp: promote_def unsqueeze_def)

text \<open>The product plus bias of a forward pass on a well-shaped layer and input.\<close>

lemma forward_projected:
  assumes w: "shape (ca_weight l) = [ca_n_classes l, ca_out_features l, ca_in_features l]"
    and b: "ca_bias l = Some b" "shape b = [ca_n_classes l, 1, ca_out_features l]"
    and i: "ca_shrink l \<longrightarrow> 0 < ca_in_features l"
    and x: "shape x = [m, ca_in_features l] \<or> shape x = [ca_n_classes l, m, ca_in_features l]"
  obtains p s2 g r where "promote x = Inr p"
    and "s2 = fst (if ca_shrink l then shrink_gate (l\<lparr>ca_conceptizator := (ca_conceptizator l)\<lparr>concepts := Some p\<rparr>\<rparr>) p
                   else (l\<lparr>ca_conceptizator := (ca_conceptizator l)\<lparr>concepts := Some p\<rparr>\<rparr>, Inr p))"
    and "g = snd (if ca_shrink l then shrink_gate (l\<lparr>ca_conceptizator := (ca_conceptizator l)\<lparr>concepts := Some p\<rparr>\<rparr>) p
                   else (l\<lparr>ca_conceptizator := (ca_conceptizator l)\<lparr>concepts := Some p\<rparr>\<rparr>, Inr p))"
    and "and_then g (project s2) = Inr r"
    and "shape r = [ca_n_classes l, m, ca_out_features l]"
proof -
  obtain p k where p: "promote x = Inr p" "shape p = [k, m, ca_in_features l]" "k = 1 \<or> k = ca_n_classes l"
    using promote_shape [OF x] by blast
  define s1 where "s1 = l\<lparr>ca_conceptizator := (ca_conceptizator l)\<lparr>concepts := Some p\<rparr>\<rparr>"
  define s2 where "s2 = fst (if ca_shrink l then shrink_gate s1 p else (s1, Inr p))"
  define g where "g = snd (if ca_shrink l then shrink_gate s1 p else (s1, Inr p))"
  have w1: "shape (ca_weight s1) = [ca_n_classes l, ca_out_features l, ca_in_features l]"
    using w by (simp add: s1_def)
  have w2: "shape (ca_weight s2) = [ca_n_classes l, ca_out_features l, ca_in_features l]"
    and b2: "ca_bias s2 = Some b"
    using w b by (simp_all add: s2_def s1_def shrink_gate_frame)
  have "\<exists>q k'. g = Inr q \<and> shape q = [k', m, ca_in_features l] \<and> (k' = 1 \<or> k' = ca_n_classes l)"
  proof (cases "ca_shrink l")
    case True
    then have "0 < ca_in_features l" using i by simp
    from shrink_gate_shape [OF w1 this p(2) p(3)] True show ?thesis
      by (auto simp: g_def)
  next
    case False
    then show ?thesis using p by (auto simp: g_def)
  qed
  then obtain q k' where q: "g = Inr q" "shape q = [k', m, ca_in_features l]" "k' = 1 \<or> k' = ca_n_classes l"
    by blast
  obtain r where r: "project s2 q = Inr r" "shape r = [ca_n_classes l, m, ca_out_features l]"
    using project_shape [OF w2 b2 b(2) q(2) q(3)] by blast
  have "and_then g (project s2) = Inr r" using q(1) r(1) by simp
  then show thesis
    using that [of p s2 g r] p(1) r(2) unfolding s2_def g_def s1_def by blast
qed

lemma init_well_shaped:
  assumes "ConceptAwareness_init i out n aw nh tp True w0 b0 = Inr l"
  shows "shape (ca_weight l) = [n, out, i] \<and> (\<exists>b. ca_bias l = Some b \<and> shape b = [n, 1, out])
       \<and> ca_n_classes l = n \<and> ca_out_features l = out \<and> ca_in_features l = i
       \<and> 0 < i \<and> 0 < out \<and> ca_top l = tp \<and> ca_shrink l = (nh \<noteq> None)"
  using assms
  by (auto simp: ConceptAwareness_init_def reset_parameters_def fan_in_def Let_def split: if_splits)

text \<open>
  C2. For a \<^verbatim>\<open>ConceptAwareness\<close> layer with its per-class weight and bias, as the
  constructor builds them (it leaves no layer with a bias and no input feature), and an
  input of shape \<open>(batch, in)\<close> or \<open>(n_classes, batch, in)\<close>: without \<^verbatim>\<open>top\<close>, \<^verbatim>\<open>forward\<close>
  returns a tensor of shape \<open>(n_classes, batch, out)\<close>; with \<^verbatim>\<open>top\<close> and one output
  feature it returns a tensor of shape \<open>(batch, n_classes)\<close>, for at least one class.
\<close>

theorem forward_shape:
  assumes "shape (ca_weight l) = [ca_n_classes l, ca_out_features l, ca_in_features l]"
    and "ca_bias l = Some b" and "shape b = [ca_n_classes l, 1, ca_out_features l]"
    and "ca_shrink l \<longrightarrow> 0 < ca_in_features l"
    and "shape x = [m, ca_in_features l] \<or> shape x = [ca_n_classes l, m, ca_in_features l]"
  shows "(\<not> ca_top l \<longrightarrow>
            (\<exists>r. snd (ConceptAwareness_forward l x) = Inr r
                \<and> shape r = [ca_n_classes l, m, ca_out_features l]))
       \<and> (ca_top l \<and> ca_out_features l = 1 \<and> 0 < ca_n_classes l \<longrightarrow>
            (\<exists>r. snd (ConceptAwareness_forward l x) = Inr r \<and> shape r = [m, ca_n_classes l]))"
proof -
  obtain p s2 g r where p: "promote x = Inr p"
    and s2: "s2 = fst (if ca_shrink l then shrink_gate (l\<lparr>ca_conceptizator := (ca_conceptizator l)\<lparr>concepts := Some p\<rparr>\<rparr>) p
                   else (l\<lparr>ca_conceptizator := (ca_conceptizator l)\<lparr>concepts := Some p\<rparr>\<rparr>, Inr p))"
    and g: "g = snd (if ca_shrink l then shrink_gate (l\<lparr>ca_conceptizator := (ca_conceptizator l)\<lparr>concepts := Some p\<rparr>\<rparr>) p
                   else (l\<lparr>ca_conceptizator := (ca_conceptizator l)\<lparr>concepts := Some p\<rparr>\<rparr>, Inr p))"
    and r: "and_then g (project s2) = Inr r" "shape r = [ca_n_classes l, m, ca_out_features l]"
    using forward_projected [OF assms] by metis
  have nt: "\<not> ca_top l \<Longrightarrow> snd (ConceptAwareness_forward l x) = Inr r"
    using r(1) by (simp add: forward_unfold [OF p] Let_def s2 [symmetric] g [symmetric])
  have tp: "\<exists>v. snd (ConceptAwareness_forward l x) = Inr v \<and> shape v = [m, ca_n_classes l]"
    if t: "ca_top l" and o: "ca_out_features l = 1" and n: "0 < ca_n_classes l"
  proof -
    obtain v where v: "and_then (view_infer (ca_n_classes l) r) tensor_t = Inr v"
        "shape v = [m * ca_out_features l, ca_n_classes l]"
      using view_t_shape [OF r(2) n] by blast
    show ?thesis
      using r(1) v t o by (simp add: forward_unfold [OF p] Let_def s2 [symmetric] g [symmetric])
  qed
  show ?thesis using nt tp r(2) by blast
qed

theorem forward_shape_witness:
  "\<exists>r. snd (ConceptAwareness_forward example_layer example_input) = Inr r \<and> shape r = [2, 2, 2]"
  using forward_shape [where l = example_layer and x = example_input and m = 2
      and b = "\<lparr>shape = [2, 1, 2], data = [0, 1 / 2, 1 / 2, 1]\<rparr>"]
  by (simp add: example_layer_def example_input_def)

text \<open>
  C10. With \<^verbatim>\<open>top\<close> set, on the same layers and inputs, \<^verbatim>\<open>forward\<close> returns a tensor of
  shape \<open>(batch * out, n_classes)\<close>, for every number of output features and so for more
  than one: the reshape flattens the batch axis and the output-feature axis together.
\<close>

theorem forward_top_shape:
  assumes "shape (ca_weight l) = [ca_n_classes l, ca_out_features l, ca_in_features l]"
    and "ca_bias l = Some b" and "shape b = [ca_n_classes l, 1, ca_out_features l]"
    and "ca_shrink l \<longrightarrow> 0 < ca_in_features l"
    and "shape x = [m, ca_in_features l] \<or> shape x = [ca_n_classes l, m, ca_in_features l]"
    and "ca_top l" and "0 < ca_n_classes l"
  shows "\<exists>r. snd (ConceptAwareness_forward l x) = Inr r
            \<and> shape r = [m * ca_out_features l, ca_n_classes l]"
proof -
  obtain p s2 g r where p: "promote x = Inr p"
    and s2: "s2 = fst (if ca_shrink l then shrink_gate (l\<lparr>ca_conceptizator := (ca_conceptizator l)\<lparr>concepts := Some p\<rparr>\<rparr>) p
                   else (l\<lparr>ca_conceptizator := (ca_conceptizator l)\<lparr>concepts := Some p\<rparr>\<rparr>, Inr p))"
    and g: "g = snd (if ca_shrink l then shrink_gate (l\<lparr>ca_conceptizator := (ca_conceptizator l)\<lparr>concepts := Some p\<rparr>\<rparr>) p
                   else (l\<lparr>ca_conceptizator := (ca_conceptizator l)\<lparr>concepts := Some p\<rparr>\<rparr>, Inr p))"
    and r: "and_then g (project s2) = Inr r" "shape r = [ca_n_classes l, m, ca_out_features l]"
    using forward_projected [OF assms(1-5)] by metis
  obtain v where v: "and_then (view_infer (ca_n_classes l) r) tensor_t = Inr v"
      "shape v = [m * ca_out_features l, ca_n_classes l]"
    using view_t_shape [OF r(2) assms(7)] by blast
  show ?thesis
    using r(1) v assms(6) by (simp add: forward_unfold [OF p] Let_def s2 [symmetric] g [symmetric])
qed

theorem forward_top_shape_witness:
  "\<exists>r. snd (ConceptAwareness_forward (example_layer\<lparr>ca_top := True\<rparr>) example_input) = Inr r
      \<and> shape r = [2 * 2, 2]"
  using forward_top_shape [where l = "example_layer\<lparr>ca_top := True\<rparr>" and x = example_input and m = 2
      and b = "\<lparr>shape = [2, 1, 2], data = [0, 1 / 2, 1 / 2, 1]\<rparr>"]
  by (simp add: example_layer_def example_input_def)

section \<open>Shrink and attention gating\<close>

lemma valid_index3 [simp]: "valid_index [n, m, i] [c, b, j] \<longleftrightarrow> c < n \<and> b < m \<and> j < i"
  by (simp add: valid_index_def)

lemma valid_index2 [simp]: "valid_index [n, i] [c, j] \<longleftrightarrow> c < n \<and> j < i"
  by (simp add: valid_index_def)

lemma valid_index1 [simp]: "valid_index [n] [c] \<longleftrightarrow> c < n"
  by (simp add: valid_index_def)

lemma wrap_dim_minus_1 [simp]: "0 < n \<Longrightarrow> wrap_dim (- 1) n = Inr (n - 1)"
  using wrap_dim_neg [of 1 n] by simp

lemma wrap_dim_2 [simp]: "2 < n \<Longrightarrow> wrap_dim 2 n = Inr 2"
  using wrap_dim_nat [of 2 n] by simp

lemma rescaled_by_Max:
  fixes f :: "nat \<Rightarrow> real"
  assumes "0 < i" and pos: "\<And>j. j < i \<Longrightarrow> 0 < f j"
  shows "(\<forall>j<i. 0 < f j / Max (f ` {..<i}) \<and> f j / Max (f ` {..<i}) \<le> 1)
       \<and> Max ((\<lambda>j. f j / Max (f ` {..<i})) ` {..<i}) = 1"
proof -
  let ?M = "Max (f ` {..<i})"
  have fin: "finite (f ` {..<i})" and ne: "f ` {..<i} \<noteq> {}"
    using assms(1) by auto
  obtain k where k: "k < i" "f k = ?M"
    using Max_in [OF fin ne] by auto
  have Mpos: "0 < ?M" using pos [OF k(1)] k(2) by simp
  have le: "f j \<le> ?M" if "j < i" for j
    using that fin by (simp add: Max_ge)
  have bounds: "0 < f j / ?M \<and> f j / ?M \<le> 1" if "j < i" for j
    using pos [OF that] le [OF that] Mpos by simp
  have "Max ((\<lambda>j. f j / ?M) ` {..<i}) = 1"
  proof (rule Max_eqI)
    show "finite ((\<lambda>j. f j / ?M) ` {..<i})" by simp
    show "y \<le> 1" if "y \<in> (\<lambda>j. f j / ?M) ` {..<i}" for y
      using that bounds by auto
    have "f k / ?M = 1" using k(2) Mpos by simp
    then show "1 \<in> (\<lambda>j. f j / ?M) ` {..<i}"
      using k(1) by (metis imageI lessThan_iff)
  qed
  then show ?thesis using bounds by blast
qed

lemma softmax_positive:
  fixes h :: "nat \<Rightarrow> real"
  assumes "j < i"
  shows "0 < exp (h j) / (\<Sum>k\<leftarrow>[0..<i]. exp (h k))"
proof -
  have "0 < (\<Sum>k\<leftarrow>[0..<i]. exp (h k))"
    using assms
  proof (induction i)
    case 0
    then show ?case by simp
  next
    case (Suc i)
    have "0 \<le> (\<Sum>k\<leftarrow>[0..<i]. exp (h k))"
      by (rule sum_list_nonneg) auto
    then show ?case by (simp add: add_nonneg_pos)
  qed
  then show ?thesis by simp
qed

lemma norm_dim_1_entry:
  assumes "shape w = [n, out, i]"
  shows "\<exists>g. norm_dim 1 w = Inr g \<and> shape g = [n, i]
     \<and> (\<forall>c<n. \<forall>j<i. entry g [c, j] = sqrt (\<Sum>k\<leftarrow>[0..<out]. (entry w [c, k, j])\<^sup>2))"
  using assms
  by (simp add: norm_dim_def ndim_def reduced_shape_def entry_tabulate lane_def comp_def)

lemma softmax_1_entry:
  assumes "shape g = [n, i]"
  shows "\<exists>a. softmax 1 g = Inr a \<and> shape a = [n, i]
     \<and> (\<forall>c<n. \<forall>j<i. entry a [c, j] = exp (entry g [c, j]) / (\<Sum>k\<leftarrow>[0..<i]. exp (entry g [c, k])))"
  using assms
  by (simp add: softmax_def ndim_def entry_tabulate lane_def comp_def)

lemma rescale_alpha_entry:
  assumes "shape a = [n, i]" and "0 < i"
  shows "\<exists>b. rescale_alpha a = Inr b \<and> shape b = [n, i]
     \<and> (\<forall>c<n. \<forall>j<i. entry b [c, j] = entry a [c, j] / Max ((\<lambda>k. entry a [c, k]) ` {..<i}))"
proof -
  define m where "m = tabulate [n] (\<lambda>idx. Max (set (lane a 1 idx)))"
  have m: "max_dim 1 a = Inr m"
    using assms by (simp add: max_dim_def ndim_def reduced_shape_def m_def)
  define u where "u = \<lparr>shape = [n, 1], data = data m\<rparr>"
  have u: "unsqueeze 1 m = Inr u"
    by (simp add: unsqueeze_def ndim_def m_def u_def)
  have ue: "entry u [c, 0] = Max ((\<lambda>k. entry a [c, k]) ` {..<i})" if "c < n" for c
  proof -
    have "entry u [c, 0] = entry m [c]"
      by (simp add: entry_def u_def m_def)
    also have "\<dots> = Max (set (lane a 1 [c]))"
      using that by (simp add: m_def entry_tabulate)
    also have "set (lane a 1 [c]) = (\<lambda>k. entry a [c, k]) ` {..<i}"
      using assms by (auto simp: lane_def)
    finally show ?thesis .
  qed
  define b where "b = tabulate [n, i] (\<lambda>idx. entry a (bidx [n, i] idx) / entry u (bidx [n, 1] idx))"
  have b: "divide a u = Inr b"
    using assms by (simp add: divide_def binop_def broadcast_shapes_def u_def b_def)
  have be: "entry b [c, j] = entry a [c, j] / Max ((\<lambda>k. entry a [c, k]) ` {..<i})"
    if "c < n" and "j < i" for c j
  proof -
    have "bidx [n, i] [c, j] = [c, j]" using that by (auto simp: bidx_def)
    moreover have "bidx [n, 1] [c, j] = [c, 0]" using that by (auto simp: bidx_def)
    ultimately show ?thesis using that ue [OF that(1)] by (simp add: b_def entry_tabulate)
  qed
  show ?thesis
    using be by (simp add: rescale_alpha_def m u b) (simp add: b_def)
qed

text \<open>The state after the shrink branch, for a weight of three axes with an input feature.\<close>

lemma shrink_gate_state:
  assumes "shape (ca_weight s) = [n, out, i]" and "0 < i"
  shows "\<exists>g a b. norm_dim 1 (ca_weight s) = Inr g \<and> softmax 1 g = Inr a \<and> rescale_alpha a = Inr b
      \<and> ca_gamma (fst (shrink_gate s x)) = Some g
      \<and> ca_alpha (fst (shrink_gate s x)) = Some a
      \<and> ca_beta (fst (shrink_gate s x)) = Some b"
proof -
  obtain g where g: "norm_dim 1 (ca_weight s) = Inr g" "shape g = [n, i]"
    using norm_dim_1_entry [OF assms(1)] by blast
  obtain a where a: "softmax 1 g = Inr a" "shape a = [n, i]"
    using softmax_1_entry [OF g(2)] by blast
  obtain b where b: "rescale_alpha a = Inr b"
    using rescale_alpha_entry [OF a(2) assms(2)] by blast
  show ?thesis
    by (simp add: shrink_gate_def g a b Let_def)
qed

lemma forward_shrink_state:
  assumes "ca_shrink l" and "promote x = Inr p"
  shows "ca_gamma (fst (ConceptAwareness_forward l x))
           = ca_gamma (fst (shrink_gate (l\<lparr>ca_conceptizator := (ca_conceptizator l)\<lparr>concepts := Some p\<rparr>\<rparr>) p))"
    and "ca_alpha (fst (ConceptAwareness_forward l x))
           = ca_alpha (fst (shrink_gate (l\<lparr>ca_conceptizator := (ca_conceptizator l)\<lparr>concepts := Some p\<rparr>\<rparr>) p))"
    and "ca_beta (fst (ConceptAwareness_forward l x))
           = ca_beta (fst (shrink_gate (l\<lparr>ca_conceptizator := (ca_conceptizator l)\<lparr>concepts := Some p\<rparr>\<rparr>) p))"
  using assms(1)
  by (simp_all add: forward_unfold [OF assms(2)] Let_def split: sum.split)

text \<open>
  C4, as the claim states it: \<open>gamma\<close> holds the per-class, per-output-feature norms, and
  the softmax and the maximum run across output features. For the example layer, with two
  output and three input features, \<^verbatim>\<open>forward\<close> in shrink mode assigns a \<open>gamma\<close> of shape
  \<open>(2, 3)\<close>, one norm for each input feature; the per-output-feature norms have shape
  \<open>(2, 2)\<close>.
\<close>

theorem shrink_gamma_axis_counterexample:
  "\<exists>g g'. ca_gamma (fst (ConceptAwareness_forward (example_layer\<lparr>ca_shrink := True\<rparr>) example_input)) = Some g
     \<and> gamma_per_output_feature (ca_weight (example_layer\<lparr>ca_shrink := True\<rparr>)) = Inr g'
     \<and> shape g = [2, 3] \<and> shape g' = [2, 2] \<and> g \<noteq> g'"
proof -
  obtain p where p: "promote example_input = Inr p" using promote_total by blast
  define s1 where "s1 = (example_layer\<lparr>ca_shrink := True\<rparr>)
      \<lparr>ca_conceptizator := (ca_conceptizator (example_layer\<lparr>ca_shrink := True\<rparr>))\<lparr>concepts := Some p\<rparr>\<rparr>"
  have w1: "shape (ca_weight s1) = [2, 2, 3]"
    by (simp add: s1_def example_layer_def)
  obtain g where g: "norm_dim 1 (ca_weight s1) = Inr g" "ca_gamma (fst (shrink_gate s1 p)) = Some g"
    using shrink_gate_state [OF w1, of p] by auto
  have sg: "shape g = [2, 3]"
    using norm_dim_1_entry [OF w1] g(1) by auto
  have fg: "ca_gamma (fst (ConceptAwareness_forward (example_layer\<lparr>ca_shrink := True\<rparr>) example_input)) = Some g"
    using forward_shrink_state(1) [OF _ p, of "example_layer\<lparr>ca_shrink := True\<rparr>"] g(2)
    by (simp add: s1_def)
  obtain g' where g': "gamma_per_output_feature (ca_weight (example_layer\<lparr>ca_shrink := True\<rparr>)) = Inr g'"
      "shape g' = [2, 2]"
    by (simp add: gamma_per_output_feature_def norm_dim_def ndim_def reduced_shape_def example_layer_def
        numeral_2_eq_2)
  have "g \<noteq> g'" using sg g'(2) by auto
  then show ?thesis using fg g' sg by blast
qed

text \<open>
  C4, amended: in shrink mode \<^verbatim>\<open>forward\<close> assigns to \<open>gamma\<close> the per-class,
  per-input-feature norms of the weight (for each class and input feature, the norm over
  the output features), to \<open>alpha\<close> the softmax of \<open>gamma\<close> across input features, and to
  \<open>beta\<close> \<open>alpha\<close> divided by its per-class maximum. All three have shape
  \<open>(n_classes, in)\<close> and no sample axis. For every class the maximum entry of \<open>beta\<close> across
  input features is 1, and every entry lies in \<open>(0, 1]\<close>. Entries are real numbers.
\<close>

theorem shrink_beta:
  assumes "ca_shrink l" and "shape (ca_weight l) = [n, out, i]" and "0 < i"
  shows "\<exists>g a b.
      ca_gamma (fst (ConceptAwareness_forward l x)) = Some g
    \<and> ca_alpha (fst (ConceptAwareness_forward l x)) = Some a
    \<and> ca_beta (fst (ConceptAwareness_forward l x)) = Some b
    \<and> shape g = [n, i] \<and> shape a = [n, i] \<and> shape b = [n, i]
    \<and> (\<forall>c<n. \<forall>j<i.
          entry g [c, j] = sqrt (\<Sum>k\<leftarrow>[0..<out]. (entry (ca_weight l) [c, k, j])\<^sup>2)
        \<and> entry a [c, j] = exp (entry g [c, j]) / (\<Sum>k\<leftarrow>[0..<i]. exp (entry g [c, k]))
        \<and> entry b [c, j] = entry a [c, j] / Max ((\<lambda>k. entry a [c, k]) ` {..<i})
        \<and> 0 < entry b [c, j] \<and> entry b [c, j] \<le> 1)
    \<and> (\<forall>c<n. Max ((\<lambda>j. entry b [c, j]) ` {..<i}) = 1)"
proof -
  obtain p where p: "promote x = Inr p" using promote_total by blast
  define s1 where "s1 = l\<lparr>ca_conceptizator := (ca_conceptizator l)\<lparr>concepts := Some p\<rparr>\<rparr>"
  have w1: "shape (ca_weight s1) = [n, out, i]" using assms(2) by (simp add: s1_def)
  obtain g a b where st: "norm_dim 1 (ca_weight s1) = Inr g" "softmax 1 g = Inr a" "rescale_alpha a = Inr b"
      "ca_gamma (fst (shrink_gate s1 p)) = Some g"
      "ca_alpha (fst (shrink_gate s1 p)) = Some a"
      "ca_beta (fst (shrink_gate s1 p)) = Some b"
    using shrink_gate_state [OF w1 assms(3), of p] by blast
  have g: "shape g = [n, i]"
      "\<And>c j. c < n \<Longrightarrow> j < i \<Longrightarrow> entry g [c, j] = sqrt (\<Sum>k\<leftarrow>[0..<out]. (entry (ca_weight l) [c, k, j])\<^sup>2)"
    using norm_dim_1_entry [OF w1] st(1) by (auto simp: s1_def)
  have a: "shape a = [n, i]"
      "\<And>c j. c < n \<Longrightarrow> j < i \<Longrightarrow> entry a [c, j] = exp (entry g [c, j]) / (\<Sum>k\<leftarrow>[0..<i]. exp (entry g [c, k]))"
    using softmax_1_entry [OF g(1)] st(2) by auto
  have b: "shape b = [n, i]"
      "\<And>c j. c < n \<Longrightarrow> j < i \<Longrightarrow> entry b [c, j] = entry a [c, j] / Max ((\<lambda>k. entry a [c, k]) ` {..<i})"
    using rescale_alpha_entry [OF a(1) assms(3)] st(3) by auto
  have apos: "0 < entry a [c, j]" if "c < n" and "j < i" for c j
    using a(2) [OF that] softmax_positive [OF that(2), of "\<lambda>k. entry g [c, k]"] by simp
  have r: "(\<forall>j<i. 0 < entry b [c, j] \<and> entry b [c, j] \<le> 1) \<and> Max ((\<lambda>j. entry b [c, j]) ` {..<i}) = 1"
    if c: "c < n" for c
  proof -
    have "(\<lambda>j. entry b [c, j]) ` {..<i} = (\<lambda>j. entry a [c, j] / Max ((\<lambda>k. entry a [c, k]) ` {..<i})) ` {..<i}"
      using b(2) [OF c] by (auto intro!: image_cong)
    then show ?thesis
      using rescaled_by_Max [OF assms(3), of "\<lambda>j. entry a [c, j]"] apos [OF c] b(2) [OF c] by simp
  qed
  show ?thesis
    unfolding forward_shrink_state [OF assms(1) p] s1_def [symmetric]
    using st(4-6) g a b r by (intro exI [of _ g] exI [of _ a] exI [of _ b]) simp
qed

theorem shrink_beta_witness:
  "\<exists>b. ca_beta (fst (ConceptAwareness_forward (example_layer\<lparr>ca_shrink := True\<rparr>) example_input)) = Some b
     \<and> shape b = [2, 3]
     \<and> Max ((\<lambda>j. entry b [0, j]) ` {..<3}) = 1
     \<and> Max ((\<lambda>j. entry b [1, j]) ` {..<3}) = 1
     \<and> 0 < entry b [1, 2] \<and> entry b [1, 2] \<le> 1"
proof -
  have w: "shape (ca_weight (example_layer\<lparr>ca_shrink := True\<rparr>)) = [2, 2, 3]"
    by (simp add: example_layer_def)
  obtain b where b: "ca_beta (fst (ConceptAwareness_forward (example_layer\<lparr>ca_shrink := True\<rparr>) example_input)) = Some b"
      "shape b = [2, 3]"
      "\<forall>c<2. \<forall>j<3. 0 < entry b [c, j] \<and> entry b [c, j] \<le> 1"
      "\<forall>c<2. Max ((\<lambda>j. entry b [c, j]) ` {..<3}) = 1"
    using shrink_beta [OF _ w, of example_input] by auto
  have "(0::nat) < 2" and "(1::nat) < 2" and "(2::nat) < 3" by simp_all
  then show ?thesis using b by blast
qed







section \<open>Logic\<close>






end
